theory Spec2Isabelle
  imports Complex_Main
begin

section \<open>JavaScript arithmetic\<close>

text \<open>
  Numbers of the viewer are JavaScript numbers. Page numbers, indices and rotations are
  integral and modelled as \<open>int\<close>. Scales and pixel geometry are \<open>real\<close> values; the
  arithmetic on scales and in the virtualizer is taken exact (there rounding, infinities
  and NaN of IEEE doubles are outside the model), while the arithmetic of the page tracker,
  which compares computed quotients with 1, is modelled in binary64 rounding, see there.

  The operator \<open>%\<close> is the truncated remainder: its sign follows the dividend.
\<close>

definition js_rem :: "int \<Rightarrow> int \<Rightarrow> int" where
  "js_rem a b = sgn a * (\<bar>a\<bar> mod \<bar>b\<bar>)"

section \<open>The viewer state and the command surface (PDFViewer, usePDFViewer)\<close>

text \<open>\<open>ScaleValue = number | 'page-width' | 'page-fit' | 'page-actual' | 'auto'\<close>\<close>

datatype scale_value = Numeric real | PageWidth | PageFit | PageActual | Auto

definition ZOOM_STEP :: real where "ZOOM_STEP = 0.25"
definition MIN_SCALE :: real where "MIN_SCALE = 0.1"
definition MAX_SCALE :: real where "MAX_SCALE = 10"

text \<open>
  The \<open>useState\<close> cells of the \<open>PDFViewer\<close> component. \<open>currentRotation\<close> has the static
  type \<open>RotationValue = 0 | 90 | 180 | 270\<close>, which is erased at run time: the cell holds
  whatever number is stored. \<open>notifications\<close> is the trace of the calls made to the optional
  props \<open>onPageChange\<close> and \<open>onScaleChange\<close>.
\<close>

datatype notification = PageChange int | ScaleChange real

record viewer =
  currentPage :: int
  currentScale :: real
  currentRotation :: int
  initialScaleCalculated :: bool
  notifications :: "notification list"

text \<open>
  What the closures of one render see besides the state cells: the \<open>enableZoom\<close> prop,
  \<open>totalPages = info?.numPages ?? 0\<close>, the loaded document (\<open>None\<close> for \<open>null\<close>; of a document
  only the size of page 1's viewport at scale 1 under a given rotation is used), the
  container element (\<open>None\<close> when \<open>containerRef.current\<close> is null; of it only
  \<open>clientWidth\<close> and \<open>clientHeight\<close> are used), and which optional callbacks are given.
\<close>

record viewer_env =
  enableZoom :: bool
  totalPages :: int
  document_viewport :: "(int \<Rightarrow> real \<times> real) option"
  container_size :: "(real \<times> real) option"
  has_onPageChange :: bool
  has_onScaleChange :: bool

definition initial_viewer :: "int \<Rightarrow> int \<Rightarrow> viewer" where
  "initial_viewer pageProp rotationProp =
     \<lparr>currentPage = pageProp, currentScale = 1, currentRotation = rotationProp,
      initialScaleCalculated = False, notifications = []\<rparr>"

definition handlePageChange :: "viewer_env \<Rightarrow> int \<Rightarrow> viewer \<Rightarrow> viewer" where
  "handlePageChange env page v =
     v\<lparr>currentPage := page,
       notifications := notifications v @ (if has_onPageChange env then [PageChange page] else [])\<rparr>"

definition handleScaleChange :: "viewer_env \<Rightarrow> real \<Rightarrow> viewer \<Rightarrow> viewer" where
  "handleScaleChange env scale v =
     (if \<not> enableZoom env then v
      else v\<lparr>currentScale := scale,
             notifications := notifications v @ (if has_onScaleChange env then [ScaleChange scale] else [])\<rparr>)"

definition handleRotationChange :: "int \<Rightarrow> viewer \<Rightarrow> viewer" where
  "handleRotationChange rotation v = v\<lparr>currentRotation := rotation\<rparr>"

text \<open>
  \<open>calculateInitialScale\<close> of PDFViewer.tsx, and the effect that commits its result with the
  raw state setter once a document and a container are there.
\<close>

definition calculateInitialScale :: "scale_value \<Rightarrow> real \<Rightarrow> real \<Rightarrow> real \<Rightarrow> real \<Rightarrow> real" where
  "calculateInitialScale scaleValue containerWidth containerHeight pageWidth pageHeight =
     (case scaleValue of
        Numeric x \<Rightarrow> x
      | PageWidth \<Rightarrow> (containerWidth - 40) / pageWidth
      | PageFit \<Rightarrow> min ((containerWidth - 40) / pageWidth) ((containerHeight - 40) / pageHeight)
      | PageActual \<Rightarrow> 1
      | Auto \<Rightarrow> min ((containerWidth - 40) / pageWidth) 1.5)"

definition initialScaleEffect :: "viewer_env \<Rightarrow> scale_value \<Rightarrow> int \<Rightarrow> viewer \<Rightarrow> viewer" where
  "initialScaleEffect env scaleProp rotationProp v =
     (case (document_viewport env, container_size env) of
        (Some doc, Some c) \<Rightarrow>
          if initialScaleCalculated v then v
          else v\<lparr>currentScale :=
                   calculateInitialScale scaleProp (fst c) (snd c)
                     (fst (doc rotationProp)) (snd (doc rotationProp)),
                 initialScaleCalculated := True\<rparr>
      | _ \<Rightarrow> v)"

text \<open>
  The commands of \<open>usePDFViewer\<close>. The hook receives \<open>zoomEnabled = enableZoom\<close>,
  \<open>setCurrentPage = handlePageChange\<close>, \<open>setCurrentScale = handleScaleChange\<close> and
  \<open>setCurrentRotation = handleRotationChange\<close>.

  A command is a closure made by one render (\<open>useCallback\<close> with the cells it reads among
  its dependencies). It reads \<open>currentPage\<close>, \<open>currentScale\<close> and \<open>currentRotation\<close> as that
  render captured them, and it stores with a plain setter (a value, not an updater). So a
  command takes two states: \<open>rendered\<close>, the cells as the render of the closure saw them,
  and the cells \<open>v\<close> at the time of the call, to which the setter is applied. Several calls
  on the closures of one render share \<open>rendered\<close>; for a call on the closure of a later render
  \<open>rendered\<close> is what that render shows.
\<close>

definition goToPage :: "viewer_env \<Rightarrow> int \<Rightarrow> viewer \<Rightarrow> viewer" where
  "goToPage env page v =
     (if document_viewport env = None \<or> totalPages env = 0 then v
      else handlePageChange env (max 1 (min page (totalPages env))) v)"

definition nextPage :: "viewer_env \<Rightarrow> viewer \<Rightarrow> viewer \<Rightarrow> viewer" where
  "nextPage env rendered v =
     (if currentPage rendered < totalPages env then goToPage env (currentPage rendered + 1) v else v)"

definition previousPage :: "viewer_env \<Rightarrow> viewer \<Rightarrow> viewer \<Rightarrow> viewer" where
  "previousPage env rendered v =
     (if currentPage rendered > 1 then goToPage env (currentPage rendered - 1) v else v)"

definition zoomIn :: "viewer_env \<Rightarrow> viewer \<Rightarrow> viewer \<Rightarrow> viewer" where
  "zoomIn env rendered v =
     (if \<not> enableZoom env then v
      else handleScaleChange env (min (currentScale rendered + ZOOM_STEP) MAX_SCALE) v)"

definition zoomOut :: "viewer_env \<Rightarrow> viewer \<Rightarrow> viewer \<Rightarrow> viewer" where
  "zoomOut env rendered v =
     (if \<not> enableZoom env then v
      else handleScaleChange env (max (currentScale rendered - ZOOM_STEP) MIN_SCALE) v)"

text \<open>
  \<open>setScale\<close>: a number is clamped and stored; a named policy is resolved against page 1 and
  the container (the continuation of \<open>document.getPage(1)\<close> is run at once), then clamped
  and stored. The \<open>default\<close> branch of the switch is the \<open>'auto'\<close> branch.
\<close>

definition setScale :: "viewer_env \<Rightarrow> scale_value \<Rightarrow> viewer \<Rightarrow> viewer \<Rightarrow> viewer" where
  "setScale env scale rendered v =
     (if \<not> enableZoom env then v
      else case scale of
        Numeric x \<Rightarrow> handleScaleChange env (max MIN_SCALE (min x MAX_SCALE)) v
      | _ \<Rightarrow>
        (case (container_size env, document_viewport env) of
           (Some c, Some doc) \<Rightarrow>
             (let vw = fst (doc (currentRotation rendered));
                  vh = snd (doc (currentRotation rendered));
                  containerWidth = fst c - 40;
                  containerHeight = snd c - 40;
                  newScale = (case scale of
                       PageWidth \<Rightarrow> containerWidth / vw
                     | PageFit \<Rightarrow> min (containerWidth / vw) (containerHeight / vh)
                     | PageActual \<Rightarrow> 1
                     | _ \<Rightarrow> min (containerWidth / vw) 1.5)
              in handleScaleChange env (max MIN_SCALE (min newScale MAX_SCALE)) v)
         | _ \<Rightarrow> v))"

definition rotate_deg :: "int \<Rightarrow> viewer \<Rightarrow> viewer \<Rightarrow> viewer" where
  "rotate_deg degrees rendered v =
     handleRotationChange (js_rem (currentRotation rendered + degrees + 360) 360) v"

definition setRotation :: "int \<Rightarrow> viewer \<Rightarrow> viewer" where
  "setRotation degrees v = handleRotationChange degrees v"

text \<open>The getters return what the render of their closure captured.\<close>

definition getCurrentPage :: "viewer \<Rightarrow> int" where
  "getCurrentPage rendered = currentPage rendered"

definition getCurrentScale :: "viewer \<Rightarrow> real" where
  "getCurrentScale rendered = currentScale rendered"

text \<open>
  The two effects of \<open>PDFViewer\<close> that copy a prop into its cell with the raw setter. Each
  runs after a commit in which its prop or its cell has changed.
\<close>

definition syncPageEffect :: "viewer_env \<Rightarrow> int \<Rightarrow> viewer \<Rightarrow> viewer" where
  "syncPageEffect env pageProp v =
     (if pageProp \<noteq> currentPage v \<and> pageProp \<ge> 1 \<and> pageProp \<le> totalPages env
      then v\<lparr>currentPage := pageProp\<rparr> else v)"

definition syncRotationEffect :: "int \<Rightarrow> viewer \<Rightarrow> viewer" where
  "syncRotationEffect rotationProp v =
     (if rotationProp \<noteq> currentRotation v then v\<lparr>currentRotation := rotationProp\<rparr> else v)"

definition RotationValue :: "int set" where
  "RotationValue = {0, 90, 180, 270}"

section \<open>The interaction guard (useZoomPrevention) and keyboard navigation\<close>

text \<open>
  The events the container listens to, with the fields the handlers read: the modifier
  flags \<open>ctrlKey\<close> and \<open>metaKey\<close>, the number of touches, the key.
\<close>

datatype dom_event =
    Wheel bool bool
  | TouchStart nat
  | TouchMove nat
  | KeyDown bool bool string
  | GestureStart
  | GestureChange

datatype zoom_attempt = AttemptPinch | AttemptWheel | AttemptKeyboard

text \<open>
  What a handler did to the event: \<open>preventDefault()\<close>, \<open>stopPropagation()\<close>, and the argument
  of the call \<open>onZoomAttempt?.(type)\<close> when that line is reached.
\<close>

record event_effect =
  defaultPrevented :: bool
  propagationStopped :: bool
  zoomAttempt :: "zoom_attempt option"

definition untouched :: event_effect where
  "untouched = \<lparr>defaultPrevented = False, propagationStopped = False, zoomAttempt = None\<rparr>"

definition suppressed :: "zoom_attempt option \<Rightarrow> event_effect" where
  "suppressed a = \<lparr>defaultPrevented = True, propagationStopped = True, zoomAttempt = a\<rparr>"

definition handleWheel :: "bool \<Rightarrow> bool \<Rightarrow> bool \<Rightarrow> event_effect" where
  "handleWheel enabled ctrlKey metaKey =
     (if enabled then untouched
      else if ctrlKey \<or> metaKey then suppressed (Some AttemptWheel) else untouched)"

definition handleTouchStart :: "bool \<Rightarrow> nat \<Rightarrow> event_effect" where
  "handleTouchStart enabled touches =
     (if enabled then untouched
      else if touches > 1 then suppressed (Some AttemptPinch) else untouched)"

definition handleTouchMove :: "bool \<Rightarrow> nat \<Rightarrow> event_effect" where
  "handleTouchMove enabled touches =
     (if enabled then untouched
      else if touches > 1 then suppressed None else untouched)"

definition handleKeyDown :: "bool \<Rightarrow> bool \<Rightarrow> bool \<Rightarrow> string \<Rightarrow> event_effect" where
  "handleKeyDown enabled ctrlKey metaKey key =
     (if enabled then untouched
      else if ctrlKey \<or> metaKey then
        (if key = ''+'' \<or> key = ''='' \<or> key = ''-'' \<or> key = ''0''
         then suppressed (Some AttemptKeyboard) else untouched)
      else untouched)"

definition handleGestureStart :: "bool \<Rightarrow> event_effect" where
  "handleGestureStart enabled = (if enabled then untouched else suppressed (Some AttemptPinch))"

definition handleGestureChange :: "bool \<Rightarrow> event_effect" where
  "handleGestureChange enabled = (if enabled then untouched else suppressed None)"

text \<open>
  The keyboard navigation listener of \<open>PDFViewer\<close>. \<open>focusWithin\<close> is the outcome of its
  focus test (the test reads \<open>document.activeElement\<close> where \<open>document\<close> is the component's
  PDF document, so in the component it never succeeds: it gives no focus or throws, and
  either way the listener changes nothing). The result is the new state and whether
  \<open>preventDefault()\<close> was called.
\<close>

definition navigationKeyDown ::
  "viewer_env \<Rightarrow> bool \<Rightarrow> string \<Rightarrow> viewer \<Rightarrow> viewer \<Rightarrow> viewer \<times> bool" where
  "navigationKeyDown env focusWithin key rendered v =
     (if \<not> focusWithin then (v, False)
      else if key = ''ArrowDown'' \<or> key = ''PageDown'' then (nextPage env rendered v, True)
      else if key = ''ArrowUp'' \<or> key = ''PageUp'' then (previousPage env rendered v, True)
      else if key = ''Home'' then (goToPage env 1 v, True)
      else if key = ''End'' then (goToPage env (totalPages env) v, True)
      else (v, False))"

text \<open>
  One event delivered to the container: every listener registered for its type runs.
  \<open>useZoomPrevention\<close> is called with \<open>enabled = enableZoom\<close>.
\<close>

definition container_event ::
  "viewer_env \<Rightarrow> bool \<Rightarrow> dom_event \<Rightarrow> viewer \<Rightarrow> viewer \<Rightarrow> viewer \<times> event_effect" where
  "container_event env focusWithin ev rendered v =
     (case ev of
        Wheel ctrlKey metaKey \<Rightarrow> (v, handleWheel (enableZoom env) ctrlKey metaKey)
      | TouchStart touches \<Rightarrow> (v, handleTouchStart (enableZoom env) touches)
      | TouchMove touches \<Rightarrow> (v, handleTouchMove (enableZoom env) touches)
      | KeyDown ctrlKey metaKey key \<Rightarrow>
          (let g = handleKeyDown (enableZoom env) ctrlKey metaKey key;
               n = navigationKeyDown env focusWithin key rendered v
           in (fst n, g\<lparr>defaultPrevented := defaultPrevented g \<or> snd n\<rparr>))
      | GestureStart \<Rightarrow> (v, handleGestureStart (enableZoom env))
      | GestureChange \<Rightarrow> (v, handleGestureChange (enableZoom env)))"

text \<open>
  The gesture classes of the guard's contract: a wheel event with a zoom modifier, more
  than one simultaneous touch, a platform pinch gesture, and a modifier with one of the
  keys \<open>+\<close>, \<open>=\<close>, \<open>-\<close>, \<open>0\<close>.
\<close>

fun is_zoom_gesture :: "dom_event \<Rightarrow> bool" where
  "is_zoom_gesture (Wheel ctrlKey metaKey) = (ctrlKey \<or> metaKey)"
| "is_zoom_gesture (TouchStart touches) = (touches > 1)"
| "is_zoom_gesture (TouchMove touches) = (touches > 1)"
| "is_zoom_gesture (KeyDown ctrlKey metaKey key) =
     ((ctrlKey \<or> metaKey) \<and> key \<in> {''+'', ''='', ''-'', ''0''})"
| "is_zoom_gesture GestureStart = True"
| "is_zoom_gesture GestureChange = True"

text \<open>A render environment with a letter-size document in an 800 by 600 container.\<close>

definition sample_env :: "bool \<Rightarrow> viewer_env" where
  "sample_env zoom =
     \<lparr>enableZoom = zoom, totalPages = 5,
      document_viewport = Some (\<lambda>r. if r = 90 \<or> r = 270 then (792, 612) else (612, 792)),
      container_size = Some (800, 600),
      has_onPageChange = True, has_onScaleChange = True\<rparr>"

section \<open>Source classification (parseSource)\<close>

text \<open>
  The values a caller can pass at run time. \<open>PDFSource = string | Uint8Array | ArrayBuffer\<close>
  is the static type; the other constructors are what an untyped caller can still pass.
  Bytes are kept as numbers.
\<close>

datatype js_value =
    JString string
  | JUint8Array "nat list"
  | JArrayBuffer "nat list"
  | JNumber real
  | JBoolean bool
  | JNull
  | JUndefined
  | JObject

record js_error =
  name :: string
  message :: string

datatype SourceType = Url | Base64 | Binary

datatype source_data = StringData string | Uint8ArrayData "nat list"

record ParsedSource =
  source_type :: SourceType
  source_data :: source_data

definition startsWith :: "string \<Rightarrow> string \<Rightarrow> bool" where
  "startsWith str p = (take (length p) str = p)"

definition isBase64DataUri :: "string \<Rightarrow> bool" where
  "isBase64DataUri str =
     (startsWith str ''data:application/pdf;base64,''
      \<or> startsWith str ''data:application/octet-stream;base64,'')"

text \<open>
  \<open>isUrl\<close>: \<open>url_parses str\<close> stands for \<open>new URL(str, window.location.href)\<close> not throwing;
  whatever is thrown inside the \<open>try\<close> is caught and gives \<open>false\<close>.
\<close>

definition isUrl :: "(string \<Rightarrow> bool) \<Rightarrow> string \<Rightarrow> bool" where
  "isUrl url_parses str =
     (if startsWith str ''http://'' \<or> startsWith str ''https://'' \<or> startsWith str ''/''
      then True else url_parses str)"

definition invalid_source :: js_error where
  "invalid_source = \<lparr>name = ''Error'', message = ''Invalid PDF source type''\<rparr>"

definition parseSource :: "(string \<Rightarrow> bool) \<Rightarrow> js_value \<Rightarrow> js_error + ParsedSource" where
  "parseSource url_parses src =
     (case src of
        JUint8Array bytes \<Rightarrow> Inr \<lparr>source_type = Binary, source_data = Uint8ArrayData bytes\<rparr>
      | JArrayBuffer bytes \<Rightarrow> Inr \<lparr>source_type = Binary, source_data = Uint8ArrayData bytes\<rparr>
      | JString str \<Rightarrow>
          if isBase64DataUri str then Inr \<lparr>source_type = Base64, source_data = StringData str\<rparr>
          else if isUrl url_parses str then Inr \<lparr>source_type = Url, source_data = StringData str\<rparr>
          else Inr \<lparr>source_type = Url, source_data = StringData str\<rparr>
      | _ \<Rightarrow> Inl invalid_source)"

fun is_string :: "js_value \<Rightarrow> bool" where
  "is_string (JString _) = True"
| "is_string _ = False"

fun is_Uint8Array :: "js_value \<Rightarrow> bool" where
  "is_Uint8Array (JUint8Array _) = True"
| "is_Uint8Array _ = False"

fun is_ArrayBuffer :: "js_value \<Rightarrow> bool" where
  "is_ArrayBuffer (JArrayBuffer _) = True"
| "is_ArrayBuffer _ = False"

section \<open>The document lifecycle (usePDFDocument)\<close>

text \<open>The test \<open>!src\<close>: the values JavaScript treats as false.\<close>

fun falsy :: "js_value \<Rightarrow> bool" where
  "falsy JUndefined = True"
| "falsy JNull = True"
| "falsy (JString str) = (str = [])"
| "falsy (JNumber x) = (x = 0)"
| "falsy (JBoolean b) = (\<not> b)"
| "falsy _ = False"

datatype PDFViewerState = StateIdle | StateLoading | StateReady | StateError

text \<open>
  What the hook does to the outside, in order: \<open>destroy()\<close> on a loading task or on a
  document, and the calls of the optional callbacks (which are taken to return normally).
  Document handles \<open>'d\<close>, document infos \<open>'i\<close> and loading tasks \<open>'t\<close> are opaque to the hook.
\<close>

datatype ('d, 'i, 't) effect =
    TaskDestroy 't
  | DocumentDestroy 'd
  | OnLoadStart
  | OnLoadSuccess 'i
  | OnLoadError js_error
  | OnPasswordRequired

record callbacks =
  has_onLoadStart :: bool
  has_onLoadSuccess :: bool
  has_onLoadError :: bool
  has_onPasswordRequired :: bool

text \<open>The four state cells, the three refs, and the trace of effects.\<close>

record ('d, 'i, 't) pdf_document =
  state :: PDFViewerState
  document :: "'d option"
  info :: "'i option"
  error :: "js_error option"
  loadingTaskRef :: "'t option"
  documentRef :: "'d option"
  versionRef :: nat
  trace :: "('d, 'i, 't) effect list"

definition initial_document :: "('d, 'i, 't) pdf_document" where
  "initial_document =
     \<lparr>state = StateIdle, document = None, info = None, error = None,
      loadingTaskRef = None, documentRef = None, versionRef = 0, trace = []\<rparr>"

definition emit :: "('d, 'i, 't) effect \<Rightarrow> ('d, 'i, 't) pdf_document \<Rightarrow> ('d, 'i, 't) pdf_document" where
  "emit e h = h\<lparr>trace := trace h @ [e]\<rparr>"

text \<open>An optional callback \<open>cb?.(...)\<close>: called when given.\<close>

definition call_if :: "bool \<Rightarrow> ('d, 'i, 't) effect \<Rightarrow> ('d, 'i, 't) pdf_document \<Rightarrow> ('d, 'i, 't) pdf_document" where
  "call_if given e h = (if given then emit e h else h)"

definition abortLoadingTask :: "'t option \<Rightarrow> ('d, 'i, 't) pdf_document \<Rightarrow> ('d, 'i, 't) pdf_document" where
  "abortLoadingTask task h = (case task of None \<Rightarrow> h | Some t \<Rightarrow> emit (TaskDestroy t) h)"

definition destroyDocumentRef :: "('d, 'i, 't) pdf_document \<Rightarrow> ('d, 'i, 't) pdf_document" where
  "destroyDocumentRef h =
     (case documentRef h of
        None \<Rightarrow> h
      | Some d \<Rightarrow> (emit (DocumentDestroy d) h)\<lparr>documentRef := None\<rparr>)"

text \<open>
  \<open>load\<close>, up to the point where the promise is left pending. \<open>outcome\<close> is what
  \<open>loadDocument(src, loadOptions)\<close> does in this call: it throws (\<open>Inl\<close>) or returns a task
  (\<open>Inr\<close>). When a task is returned, the continuations of its promise capture
  \<open>version\<close>, the value \<open>versionRef\<close> has after the call.
\<close>

definition load :: "callbacks \<Rightarrow> js_value \<Rightarrow> js_error + 't \<Rightarrow> ('d, 'i, 't) pdf_document \<Rightarrow> ('d, 'i, 't) pdf_document" where
  "load cb src outcome h =
     (if falsy src then h\<lparr>state := StateIdle, document := None, info := None, error := None\<rparr>
      else
        let h1 = h\<lparr>versionRef := versionRef h + 1\<rparr>;
            h2 = (abortLoadingTask (loadingTaskRef h1) h1)\<lparr>loadingTaskRef := None\<rparr>;
            h3 = destroyDocumentRef h2;
            h4 = call_if (has_onLoadStart cb) OnLoadStart (h3\<lparr>state := StateLoading, error := None\<rparr>)
        in case outcome of
             Inr task \<Rightarrow> h4\<lparr>loadingTaskRef := Some task\<rparr>
           | Inl err \<Rightarrow>
               call_if (has_onLoadError cb) (OnLoadError err) (h4\<lparr>error := Some err, state := StateError\<rparr>))"

text \<open>The \<open>then\<close> continuation of the promise of the load that captured \<open>version\<close>.\<close>

definition on_fulfilled :: "callbacks \<Rightarrow> nat \<Rightarrow> 'd \<Rightarrow> 'i \<Rightarrow> ('d, 'i, 't) pdf_document \<Rightarrow> ('d, 'i, 't) pdf_document" where
  "on_fulfilled cb version doc docInfo h =
     (if version \<noteq> versionRef h then emit (DocumentDestroy doc) h
      else call_if (has_onLoadSuccess cb) (OnLoadSuccess docInfo)
             (h\<lparr>documentRef := Some doc, document := Some doc, info := Some docInfo,
                state := StateReady\<rparr>))"

text \<open>The \<open>catch\<close> continuation.\<close>

definition on_rejected :: "callbacks \<Rightarrow> nat \<Rightarrow> js_error \<Rightarrow> ('d, 'i, 't) pdf_document \<Rightarrow> ('d, 'i, 't) pdf_document" where
  "on_rejected cb version err h =
     (if version \<noteq> versionRef h then h
      else
        let h1 = (if name err = ''PasswordException''
                  then call_if (has_onPasswordRequired cb) OnPasswordRequired h else h)
        in call_if (has_onLoadError cb) (OnLoadError err) (h1\<lparr>error := Some err, state := StateError\<rparr>))"

text \<open>The cleanup of the effect, on unmount or before the effect runs again.\<close>

definition cleanup :: "('d, 'i, 't) pdf_document \<Rightarrow> ('d, 'i, 't) pdf_document" where
  "cleanup h = destroyDocumentRef ((abortLoadingTask (loadingTaskRef h) h)\<lparr>loadingTaskRef := None\<rparr>)"

text \<open>
  A settlement of a load's promise, tagged with the version that load captured, and a run
  of settlements in the order in which they arrive.
\<close>

datatype ('d, 'i) settlement = Fulfilled nat 'd 'i | Rejected nat js_error

fun captured :: "('d, 'i) settlement \<Rightarrow> nat" where
  "captured (Fulfilled version _ _) = version"
| "captured (Rejected version _) = version"

fun settle :: "callbacks \<Rightarrow> ('d, 'i) settlement \<Rightarrow> ('d, 'i, 't) pdf_document \<Rightarrow> ('d, 'i, 't) pdf_document" where
  "settle cb (Fulfilled version doc docInfo) h = on_fulfilled cb version doc docInfo h"
| "settle cb (Rejected version err) h = on_rejected cb version err h"

fun settle_all :: "callbacks \<Rightarrow> ('d, 'i) settlement list \<Rightarrow> ('d, 'i, 't) pdf_document \<Rightarrow> ('d, 'i, 't) pdf_document" where
  "settle_all cb [] h = h"
| "settle_all cb (ev # evs) h = settle_all cb evs (settle cb ev h)"

text \<open>
  The hook as its observers see it: the state cells, the refs and the callbacks that were
  called; the \<open>destroy()\<close> calls are dropped from the trace.
\<close>

fun is_callback :: "('d, 'i, 't) effect \<Rightarrow> bool" where
  "is_callback (TaskDestroy _) = False"
| "is_callback (DocumentDestroy _) = False"
| "is_callback _ = True"

definition observed :: "('d, 'i, 't) pdf_document \<Rightarrow> ('d, 'i, 't) pdf_document" where
  "observed h = h\<lparr>trace := filter is_callback (trace h)\<rparr>"

definition all_callbacks :: callbacks where
  "all_callbacks = \<lparr>has_onLoadStart = True, has_onLoadSuccess = True, has_onLoadError = True,
     has_onPasswordRequired = True\<rparr>"

text \<open>
  A source change seen by the hook: the cleanup of the effect runs, then \<open>load\<close> with the new
  source. \<open>first_load\<close> is the hook after mounting with a source, its promise pending;
  \<open>source_cleared\<close> is that hook after the source has become \<open>undefined\<close>.
\<close>

definition sourceChanged ::
  "callbacks \<Rightarrow> js_value \<Rightarrow> js_error + 't \<Rightarrow> ('d, 'i, 't) pdf_document \<Rightarrow> ('d, 'i, 't) pdf_document" where
  "sourceChanged cb src outcome h = load cb src outcome (cleanup h)"

definition first_load :: "(nat, nat, nat) pdf_document" where
  "first_load = load all_callbacks (JString ''/a.pdf'') (Inr 7) initial_document"

definition source_cleared :: "(nat, nat, nat) pdf_document" where
  "source_cleared = sourceChanged all_callbacks JUndefined (Inr 8) first_load"

definition abort_error :: js_error where
  "abort_error = \<lparr>name = ''Error'', message = ''Loading aborted''\<rparr>"


section \<open>Page geometry\<close>

text \<open>
  A page element of the container (one \<open>[data-page-number]\<close> node, rendered page or
  placeholder) as the scroll handlers measure it: its parsed page number and the \<open>top\<close> and
  \<open>height\<close> of its bounding rectangle; \<open>bottom\<close> is \<open>top + height\<close>. Of the container the
  handlers read \<open>scrollTop\<close>, \<open>clientHeight\<close> and the \<open>top\<close> of its bounding rectangle.
\<close>

record page_element =
  pageNumber :: int
  rect_top :: real
  rect_height :: real

definition rect_bottom :: "page_element \<Rightarrow> real" where
  "rect_bottom e = rect_top e + rect_height e"

record container_box =
  scrollTop :: real
  clientHeight :: real
  box_top :: real

section \<open>The virtualizer (PDFPages)\<close>

record visible_range =
  range_start :: int
  range_end :: int

text \<open>The two state cells of \<open>PDFPages\<close>: the loaded page proxies and the visible range.\<close>

record 'p pdf_pages =
  pages :: "'p list"
  visibleRange :: visible_range

definition initial_pages :: "'p pdf_pages" where
  "initial_pages = \<lparr>pages = [], visibleRange = \<lparr>range_start = 0, range_end = 5\<rparr>\<rparr>"

definition setPages :: "'p list \<Rightarrow> 'p pdf_pages \<Rightarrow> 'p pdf_pages" where
  "setPages loadedPages s = s\<lparr>pages := loadedPages\<rparr>"

text \<open>
  The body of \<open>pageElements.forEach((element, index) => ...)\<close> in \<open>updateVisibleRange\<close>, from
  \<open>index\<close> on; \<open>n\<close> is \<open>pages.length\<close> and the accumulator is \<open>(startIndex, endIndex)\<close>.
\<close>

fun scanRange :: "container_box \<Rightarrow> int \<Rightarrow> int \<Rightarrow> page_element list \<Rightarrow> int \<times> int \<Rightarrow> int \<times> int" where
  "scanRange c n index [] acc = acc"
| "scanRange c n index (element # rest) (startIndex, endIndex) =
     (let containerHeight = clientHeight c;
          elementTop = rect_top element - box_top c;
          elementBottom = rect_bottom element - box_top c
      in scanRange c n (index + 1) rest
           (if elementBottom < - containerHeight then max 0 (index - 2) else startIndex,
            if elementTop > containerHeight * 2 then min (n - 1) (index + 2) else endIndex))"

definition updateVisibleRange :: "container_box \<Rightarrow> page_element list \<Rightarrow> 'p pdf_pages \<Rightarrow> 'p pdf_pages" where
  "updateVisibleRange c pageElements s =
     (let n = int (length (pages s));
          found = scanRange c n 0 pageElements (0, n - 1)
      in s\<lparr>visibleRange :=
             \<lparr>range_start = max 0 (fst found - 2), range_end = min (n - 1) (snd found + 2)\<rparr>\<rparr>)"

text \<open>
  The effect that tracks visible pages: nothing without a container or without pages,
  otherwise one computation at once; the scroll listener it registers runs
  \<open>updateVisibleRange\<close> again on every scroll event, each time on what the DOM then measures.
\<close>

definition trackVisiblePages :: "(container_box \<times> page_element list) option \<Rightarrow> 'p pdf_pages \<Rightarrow> 'p pdf_pages" where
  "trackVisiblePages measured s =
     (case measured of
        None \<Rightarrow> s
      | Some (c, pageElements) \<Rightarrow> if pages s = [] then s else updateVisibleRange c pageElements s)"

fun onScrolls :: "(container_box \<times> page_element list) list \<Rightarrow> 'p pdf_pages \<Rightarrow> 'p pdf_pages" where
  "onScrolls [] s = s"
| "onScrolls ((c, pageElements) # later) s = onScrolls later (updateVisibleRange c pageElements s)"

text \<open>The invariant the spec states for the visible range of a document of \<open>n\<close> pages.\<close>

definition range_invariant :: "int \<Rightarrow> visible_range \<Rightarrow> bool" where
  "range_invariant n r =
     (0 \<le> range_start r \<and> range_start r \<le> range_end r \<and> range_end r \<le> n - 1
      \<and> (n \<ge> 5 \<longrightarrow> range_end r - range_start r \<ge> 4))"

text \<open>
  One measurement of the DOM for a document of \<open>n\<close> loaded pages: one element per page, in
  document order from top to bottom.
\<close>

definition stacked :: "nat \<Rightarrow> page_element list \<Rightarrow> bool" where
  "stacked n pageElements = (length pageElements = n \<and> sorted (map rect_top pageElements))"

text \<open>Sample measurements: an eight-page document scrolled to its end, and at its top.\<close>

definition long_container :: container_box where
  "long_container = \<lparr>scrollTop = 5500, clientHeight = 600, box_top = 0\<rparr>"

definition long_elements :: "page_element list" where
  "long_elements =
     [\<lparr>pageNumber = 1, rect_top = -5500, rect_height = 790\<rparr>,
      \<lparr>pageNumber = 2, rect_top = -4700, rect_height = 790\<rparr>,
      \<lparr>pageNumber = 3, rect_top = -3900, rect_height = 790\<rparr>,
      \<lparr>pageNumber = 4, rect_top = -3100, rect_height = 790\<rparr>,
      \<lparr>pageNumber = 5, rect_top = -2300, rect_height = 790\<rparr>,
      \<lparr>pageNumber = 6, rect_top = -1500, rect_height = 790\<rparr>,
      \<lparr>pageNumber = 7, rect_top = -700, rect_height = 790\<rparr>,
      \<lparr>pageNumber = 8, rect_top = 100, rect_height = 790\<rparr>]"

definition long_container_at_top :: container_box where
  "long_container_at_top = \<lparr>scrollTop = 0, clientHeight = 600, box_top = 0\<rparr>"

definition long_elements_at_top :: "page_element list" where
  "long_elements_at_top = map (\<lambda>e. e\<lparr>rect_top := rect_top e + 5500\<rparr>) long_elements"

section \<open>Page tracking (usePageTracking)\<close>

text \<open>
  The tracker compares quotients of pixel values with 1, so its arithmetic is modelled as
  what JavaScript computes: IEEE 754 binary64 with round to nearest, ties to even. The
  model covers values in the normal range (no overflow, no subnormals); the only NaN that
  can arise, \<open>0 / 0\<close>, is guarded where it arises. The measurements read from the DOM are
  doubles themselves.

  \<open>binade n x\<close> is the exponent \<open>e\<close> with \<open>2^e \<le> x < 2^(e+1)\<close> of a positive \<open>x\<close>, found in at most
  \<open>n\<close> steps; \<open>double_round x\<close> is the double nearest to \<open>x\<close>: the multiple of the unit in the
  last place \<open>2^(e-52)\<close> nearest to \<open>x\<close>, the even one at a tie.
\<close>

fun binade :: "nat \<Rightarrow> real \<Rightarrow> int" where
  "binade 0 x = 0"
| "binade (Suc n) x =
     (if 2 \<le> x then binade n (x / 2) + 1
      else if x < 1 then binade n (x * 2) - 1
      else 0)"

definition round_half_even :: "real \<Rightarrow> int" where
  "round_half_even q =
     (let f = \<lfloor>q\<rfloor> in
      if q - of_int f < 1 / 2 then f
      else if q - of_int f > 1 / 2 then f + 1
      else if even f then f else f + 1)"

definition double_round :: "real \<Rightarrow> real" where
  "double_round x =
     (if x = 0 then 0
      else let ulp = 2 powi (binade 1100 \<bar>x\<bar> - 52)
           in of_int (round_half_even (x / ulp)) * ulp)"

definition fadd :: "real \<Rightarrow> real \<Rightarrow> real" where
  "fadd x y = double_round (x + y)"

definition fsub :: "real \<Rightarrow> real \<Rightarrow> real" where
  "fsub x y = double_round (x - y)"

definition fdiv :: "real \<Rightarrow> real \<Rightarrow> real" where
  "fdiv x y = double_round (x / y)"

text \<open>
  The state that matters: \<open>lastPageRef\<close>, and the trace of the calls of \<open>onPageChange\<close>.
\<close>

record page_tracking =
  lastPageRef :: int
  reported :: "int list"

definition initial_tracking :: page_tracking where
  "initial_tracking = \<lparr>lastPageRef = 1, reported = []\<rparr>"

text \<open>The quantities \<open>calculateVisiblePage\<close> computes for one element.\<close>

definition elementTop :: "container_box \<Rightarrow> page_element \<Rightarrow> real" where
  "elementTop c e = fadd (fsub (rect_top e) (box_top c)) (scrollTop c)"

definition elementBottom :: "container_box \<Rightarrow> page_element \<Rightarrow> real" where
  "elementBottom c e = fadd (elementTop c e) (rect_height e)"

definition containerCenter :: "container_box \<Rightarrow> real" where
  "containerCenter c = fadd (scrollTop c) (fdiv (clientHeight c) 2)"

definition visibleHeight :: "container_box \<Rightarrow> page_element \<Rightarrow> real" where
  "visibleHeight c e =
     (let visibleTop = max (elementTop c e) (scrollTop c);
          visibleBottom = min (elementBottom c e) (fadd (scrollTop c) (clientHeight c))
      in max 0 (fsub visibleBottom visibleTop))"

text \<open>
  \<open>visibility = visibleHeight / rect.height\<close>. For an element of height 0 the visible height
  is 0 and JavaScript computes NaN, which is greater than nothing: the comparison in
  \<open>scanPages\<close> is guarded for it.
\<close>

definition visibility :: "container_box \<Rightarrow> page_element \<Rightarrow> real" where
  "visibility c e = fdiv (visibleHeight c e) (rect_height e)"

definition containsCenter :: "container_box \<Rightarrow> page_element \<Rightarrow> bool" where
  "containsCenter c e = (elementTop c e \<le> containerCenter c \<and> elementBottom c e \<ge> containerCenter c)"

text \<open>
  The body of \<open>pageElements.forEach\<close> in \<open>calculateVisiblePage\<close>; the accumulator is
  \<open>(mostVisiblePage, maxVisibility)\<close>.
\<close>

fun scanPages :: "container_box \<Rightarrow> page_element list \<Rightarrow> int \<times> real \<Rightarrow> int \<times> real" where
  "scanPages c [] acc = acc"
| "scanPages c (element # rest) (mostVisiblePage, maxVisibility) =
     (let byRatio = (if rect_height element \<noteq> 0 \<and> visibility c element > maxVisibility
                     then (pageNumber element, visibility c element)
                     else (mostVisiblePage, maxVisibility))
      in scanPages c rest
           (if containsCenter c element then (pageNumber element, 1) else byRatio))"

text \<open>The option \<open>threshold = 0.5\<close>: the default applies when the caller gives none.\<close>

definition threshold_or_default :: "real option \<Rightarrow> real" where
  "threshold_or_default given = (case given of None \<Rightarrow> 0.5 | Some x \<Rightarrow> x)"

text \<open>
  \<open>measured\<close> is \<open>None\<close> when \<open>containerRef.current\<close> is null, otherwise what the DOM gives for
  the container and its page elements.
\<close>

definition calculateVisiblePage ::
  "real option \<Rightarrow> int \<Rightarrow> (container_box \<times> page_element list) option \<Rightarrow> page_tracking \<Rightarrow> page_tracking" where
  "calculateVisiblePage threshold total_pages measured t =
     (case measured of
        None \<Rightarrow> t
      | Some (c, pageElements) \<Rightarrow>
          if total_pages = 0 then t
          else
            let found = scanPages c pageElements (1, 0)
            in if snd found \<ge> threshold_or_default threshold \<and> fst found \<noteq> lastPageRef t
               then t\<lparr>lastPageRef := fst found, reported := reported t @ [fst found]\<rparr>
               else t)"

text \<open>
  A measurement: an unscrolled container 300 pixels high whose first three pages are 79.2
  pixels high and stacked without gap, at tops 0, 79.2 and 158.4. The centre of the visible
  band, 150, lies in page 2.
\<close>

definition tracked_container :: container_box where
  "tracked_container = \<lparr>scrollTop = 0, clientHeight = 300, box_top = 0\<rparr>"

definition page_one :: page_element where
  "page_one = \<lparr>pageNumber = 1, rect_top = 0, rect_height = double_round 79.2\<rparr>"

definition page_two :: page_element where
  "page_two = \<lparr>pageNumber = 2, rect_top = double_round 79.2, rect_height = double_round 79.2\<rparr>"

definition page_three :: page_element where
  "page_three = \<lparr>pageNumber = 3, rect_top = double_round 158.4, rect_height = double_round 79.2\<rparr>"

definition tracked_elements :: "page_element list" where
  "tracked_elements = [page_one, page_two, page_three]"

section \<open>Rotation\<close>




text \<open>
  In \<open>PDFViewer\<close>, once a \<open>rotate\<close> call is committed the effect that copies the \<open>rotation\<close> prop
  runs: while the prop still has the old rotation, the cell is set back to it.
\<close>

lemma rotate_then_prop_sync:
  "currentRotation v = rotationProp \<Longrightarrow> syncRotationEffect rotationProp (rotate_deg d v v) = v"
  by (simp add: syncRotationEffect_def rotate_deg_def handleRotationChange_def)




text \<open>
  C8 as stated fails: \<open>setRotation(45)\<close> is stored, although 45 is not a rotation value.
\<close>

theorem setRotation_unvalidated_counterexample:
  "(45::int) \<notin> RotationValue
   \<and> currentRotation (setRotation 45 (initial_viewer 1 0)) = 45
   \<and> currentRotation (setRotation 45 (initial_viewer 1 0)) \<noteq> currentRotation (initial_viewer 1 0)"
  by (simp add: RotationValue_def setRotation_def handleRotationChange_def initial_viewer_def)

text \<open>
  C8, amended. \<open>setRotation(value)\<close> stores its argument as the current rotation whatever
  it is and changes nothing else; so the stored rotation is one of \<open>{0, 90, 180, 270}\<close>
  exactly when the argument is. Only the static type \<open>RotationValue\<close> of the parameter keeps
  other values out.
\<close>

theorem setRotation_stores_argument:
  "setRotation d v = v\<lparr>currentRotation := d\<rparr>
   \<and> (currentRotation (setRotation d v) \<in> RotationValue) = (d \<in> RotationValue)"
  by (simp add: setRotation_def handleRotationChange_def)

section \<open>Zoom\<close>

lemma handleScaleChange_enabled:
  "enableZoom env \<Longrightarrow> currentScale (handleScaleChange env x v) = x"
  by (simp add: handleScaleChange_def)

lemma setScale_numeric_clamped:
  assumes "enableZoom env"
  shows "currentScale (setScale env (Numeric x) rendered v) = max MIN_SCALE (min x MAX_SCALE)"
    and "MIN_SCALE \<le> currentScale (setScale env (Numeric x) rendered v)"
    and "currentScale (setScale env (Numeric x) rendered v) \<le> MAX_SCALE"
  using assms
  by (simp_all add: setScale_def handleScaleChange_enabled MIN_SCALE_def MAX_SCALE_def)

lemma setScale_named_clamped:
  assumes "enableZoom env" and "container_size env = Some c" and "document_viewport env = Some doc"
    and "0 < fst (doc (currentRotation rendered))" and "0 < snd (doc (currentRotation rendered))"
  shows "MIN_SCALE \<le> currentScale (setScale env s rendered v)
       \<and> currentScale (setScale env s rendered v) \<le> MAX_SCALE"
  using assms
  by (cases s)
     (simp_all add: setScale_def handleScaleChange_enabled Let_def MIN_SCALE_def MAX_SCALE_def)

text \<open>
  C2. The initial scale is committed as \<open>calculateInitialScale\<close> returns it, without the
  clamp that \<open>setScale\<close> applies: a numeric \<open>scale\<close> prop of 50 becomes the current scale,
  above the maximum of 10, and \<open>'page-width'\<close> in a container of width 0 resolves to a
  negative scale, below the minimum of 0.1.
\<close>

theorem initial_scale_not_clamped:
  "getCurrentScale (initialScaleEffect (sample_env False) (Numeric 50) 0 (initial_viewer 1 0)) = 50
   \<and> MAX_SCALE < 50
   \<and> calculateInitialScale PageWidth 0 600 612 792 < MIN_SCALE
   \<and> getCurrentScale (setScale (sample_env True) (Numeric 50) (initial_viewer 1 0) (initial_viewer 1 0)) = 10"
  by (simp add: initialScaleEffect_def sample_env_def initial_viewer_def calculateInitialScale_def
      getCurrentScale_def setScale_def handleScaleChange_def MAX_SCALE_def MIN_SCALE_def)

text \<open>
  C7 as stated fails for \<open>zoomIn()\<close> followed at once by \<open>zoomOut()\<close>: both closures captured
  the same scale, so from 1 the second call stores 0.75, with no clamp near.
\<close>

theorem zoom_same_closure_counterexample:
  "enableZoom (sample_env True)
   \<and> getCurrentScale (initial_viewer 1 0) = 1
   \<and> getCurrentScale (initial_viewer 1 0) + ZOOM_STEP < MAX_SCALE
   \<and> MIN_SCALE < getCurrentScale (initial_viewer 1 0) - ZOOM_STEP
   \<and> getCurrentScale (zoomOut (sample_env True) (initial_viewer 1 0)
        (zoomIn (sample_env True) (initial_viewer 1 0) (initial_viewer 1 0))) = 0.75"
  by (simp add: zoomIn_def zoomOut_def getCurrentScale_def handleScaleChange_def sample_env_def
      initial_viewer_def ZOOM_STEP_def MIN_SCALE_def MAX_SCALE_def)

text \<open>
  C7, amended. With zoom enabled, \<open>zoomIn\<close> stores the scale its closure captured plus 0.25,
  capped at 10, and \<open>zoomOut\<close> the captured scale minus 0.25, floored at 0.1; neither
  changes the page or the rotation. When the closure of \<open>zoomOut\<close> has captured the scale
  that \<open>zoomIn\<close> stored and neither clamp saturates (the step up stays within the maximum
  and the step back down within the minimum), \<open>zoomOut\<close> stores the scale \<open>zoomIn\<close> had
  captured. \<open>zoomIn\<close> followed by \<open>zoomOut\<close> on the closures of one render stores the captured
  scale minus 0.25, floored at 0.1.
\<close>

theorem zoom_steps_and_roundtrip:
  assumes "enableZoom env"
  shows "getCurrentScale (zoomIn env rendered v) = min (getCurrentScale rendered + 0.25) 10
       \<and> getCurrentScale (zoomOut env rendered v) = max (getCurrentScale rendered - 0.25) 0.1
       \<and> currentPage (zoomIn env rendered v) = currentPage v
       \<and> currentRotation (zoomIn env rendered v) = currentRotation v
       \<and> currentPage (zoomOut env rendered v) = currentPage v
       \<and> currentRotation (zoomOut env rendered v) = currentRotation v
       \<and> (getCurrentScale next = getCurrentScale (zoomIn env rendered v)
            \<and> getCurrentScale rendered + ZOOM_STEP \<le> MAX_SCALE
            \<and> MIN_SCALE \<le> getCurrentScale next - ZOOM_STEP
          \<longrightarrow> getCurrentScale (zoomOut env next w) = getCurrentScale rendered)
       \<and> getCurrentScale (zoomOut env rendered (zoomIn env rendered v))
           = max (getCurrentScale rendered - 0.25) 0.1"
  using assms
  by (auto simp: zoomIn_def zoomOut_def getCurrentScale_def handleScaleChange_def
      ZOOM_STEP_def MIN_SCALE_def MAX_SCALE_def min_def max_def)

theorem zoom_steps_and_roundtrip_witness:
  "getCurrentScale (zoomIn (sample_env True) (initial_viewer 1 0) (initial_viewer 1 0)) = 1.25
   \<and> getCurrentScale (zoomOut (sample_env True) (initial_viewer 1 0) (initial_viewer 1 0)) = 0.75
   \<and> getCurrentScale (zoomOut (sample_env True)
        (zoomIn (sample_env True) (initial_viewer 1 0) (initial_viewer 1 0))
        (zoomIn (sample_env True) (initial_viewer 1 0) (initial_viewer 1 0))) = 1"
proof -
  let ?e = "sample_env True"
  let ?v = "initial_viewer 1 0"
  have e: "enableZoom ?e" by (simp add: sample_env_def)
  have s: "getCurrentScale ?v = 1"
    by (simp add: getCurrentScale_def initial_viewer_def)
  note t = zoom_steps_and_roundtrip [OF e, where rendered = ?v and v = ?v
      and ?next = "zoomIn ?e ?v ?v" and w = "zoomIn ?e ?v ?v"]
  have w1: "getCurrentScale (zoomIn ?e ?v ?v) = 1.25"
    using t [THEN conjunct1] by (simp add: s)
  have w2: "getCurrentScale (zoomOut ?e ?v ?v) = 0.75"
    using t [THEN conjunct2, THEN conjunct1] by (simp add: s)
  have up: "getCurrentScale ?v + ZOOM_STEP \<le> MAX_SCALE"
    by (simp add: s ZOOM_STEP_def MAX_SCALE_def)
  have down: "MIN_SCALE \<le> getCurrentScale (zoomIn ?e ?v ?v) - ZOOM_STEP"
    by (simp add: w1 ZOOM_STEP_def MIN_SCALE_def)
  have "getCurrentScale (zoomOut ?e (zoomIn ?e ?v ?v) (zoomIn ?e ?v ?v)) = getCurrentScale ?v"
    using t up down by blast
  then have w3: "getCurrentScale (zoomOut ?e (zoomIn ?e ?v ?v) (zoomIn ?e ?v ?v)) = 1"
    by (simp add: s)
  show ?thesis using w1 w2 w3 by blast
qed

text \<open>
  C6. While zoom is disabled, \<open>zoomIn\<close>, \<open>zoomOut\<close> and \<open>setScale\<close> with any argument return the
  state as it was (scale, page, rotation and the trace of callbacks), and every event of a
  zoom gesture class delivered to the container (wheel with a modifier, more than one
  touch, a pinch gesture, a modifier with \<open>+\<close>, \<open>=\<close>, \<open>-\<close> or \<open>0\<close>) has its default prevented
  and its propagation stopped and leaves the state as it was.
\<close>

theorem zoom_disabled_frame:
  assumes "\<not> enableZoom env"
  shows "zoomIn env rendered v = v \<and> zoomOut env rendered v = v \<and> setScale env s rendered v = v
       \<and> (is_zoom_gesture ev \<longrightarrow>
            fst (container_event env focusWithin ev rendered v) = v
            \<and> defaultPrevented (snd (container_event env focusWithin ev rendered v))
            \<and> propagationStopped (snd (container_event env focusWithin ev rendered v)))"
proof -
  have api: "zoomIn env rendered v = v \<and> zoomOut env rendered v = v \<and> setScale env s rendered v = v"
    using assms by (simp add: zoomIn_def zoomOut_def setScale_def)
  have guard: "fst (container_event env focusWithin ev rendered v) = v
      \<and> defaultPrevented (snd (container_event env focusWithin ev rendered v))
      \<and> propagationStopped (snd (container_event env focusWithin ev rendered v))"
    if "is_zoom_gesture ev"
  proof (cases ev)
    case (KeyDown ctrlKey metaKey key)
    with that have k: "(ctrlKey \<or> metaKey)" "key = ''+'' \<or> key = ''='' \<or> key = ''-'' \<or> key = ''0''"
      by auto
    from k(2) have nav: "navigationKeyDown env focusWithin key rendered v = (v, False)"
      by (auto simp: navigationKeyDown_def)
    from k assms have g: "handleKeyDown (enableZoom env) ctrlKey metaKey key = suppressed (Some AttemptKeyboard)"
      by (auto simp: handleKeyDown_def)
    show ?thesis
      by (simp add: KeyDown container_event_def nav g suppressed_def)
  qed (use that assms in \<open>auto simp: container_event_def handleWheel_def handleTouchStart_def
        handleTouchMove_def handleGestureStart_def handleGestureChange_def suppressed_def\<close>)
  show ?thesis using api guard by blast
qed

theorem zoom_disabled_frame_witness:
  "zoomIn (sample_env False) (initial_viewer 1 0) (initial_viewer 1 0) = initial_viewer 1 0
   \<and> zoomOut (sample_env False) (initial_viewer 1 0) (initial_viewer 1 0) = initial_viewer 1 0
   \<and> setScale (sample_env False) (Numeric 2) (initial_viewer 1 0) (initial_viewer 1 0) = initial_viewer 1 0
   \<and> is_zoom_gesture (KeyDown True False ''+'')
   \<and> fst (container_event (sample_env False) True (KeyDown True False ''+'') (initial_viewer 1 0)
       (initial_viewer 1 0)) = initial_viewer 1 0
   \<and> defaultPrevented (snd (container_event (sample_env False) True (KeyDown True False ''+'')
       (initial_viewer 1 0) (initial_viewer 1 0)))"
proof -
  have d: "\<not> enableZoom (sample_env False)" by (simp add: sample_env_def)
  have z: "is_zoom_gesture (KeyDown True False ''+'')" by simp
  note t = zoom_disabled_frame [OF d, where rendered = "initial_viewer 1 0" and v = "initial_viewer 1 0"
      and s = "Numeric 2" and ev = "KeyDown True False ''+''" and focusWithin = True]
  show ?thesis using t z by blast
qed

section \<open>Source classification\<close>

text \<open>
  C10. \<open>parseSource\<close> returns for every string: \<open>'base64'\<close> when the string starts with one of
  the two data-URI prefixes and \<open>'url'\<close> otherwise, whether or not the string parses as a
  URL, with the string itself as data. It throws, and then the error
  \<open>Invalid PDF source type\<close>, exactly when the argument is neither a string nor a
  \<open>Uint8Array\<close> nor an \<open>ArrayBuffer\<close>.
\<close>

theorem parseSource_total_on_strings:
  "parseSource url_parses (JString str) =
     Inr \<lparr>source_type = (if isBase64DataUri str then Base64 else Url), source_data = StringData str\<rparr>
   \<and> (parseSource url_parses src = Inl invalid_source)
       = (\<not> is_string src \<and> \<not> is_Uint8Array src \<and> \<not> is_ArrayBuffer src)
   \<and> isl (parseSource url_parses src) = (parseSource url_parses src = Inl invalid_source)
   \<and> message invalid_source = ''Invalid PDF source type''"
  by (cases src) (simp_all add: parseSource_def invalid_source_def)

section \<open>Document lifecycle\<close>

text \<open>
  C9. When the load whose promise rejects is still the current one and the error is a
  \<open>PasswordException\<close>, the password callback is called (when given) and the generic path
  still runs after it: the error is stored, the state becomes \<open>error\<close>, and the error
  callback is called (when given). Nothing else changes.
\<close>

theorem password_required_in_addition:
  assumes "version = versionRef h" and "name err = ''PasswordException''"
  shows "on_rejected cb version err h =
           h\<lparr>error := Some err, state := StateError,
             trace := trace h
               @ (if has_onPasswordRequired cb then [OnPasswordRequired] else [])
               @ (if has_onLoadError cb then [OnLoadError err] else [])\<rparr>"
  using assms by (simp add: on_rejected_def call_if_def emit_def)

theorem password_required_in_addition_witness:
  "on_rejected all_callbacks 1 \<lparr>name = ''PasswordException'', message = ''No password given''\<rparr>
     (load all_callbacks (JString ''/a.pdf'') (Inr (7::nat)) (initial_document :: (nat, nat, nat) pdf_document))
   = \<lparr>state = StateError, document = None, info = None,
      error = Some \<lparr>name = ''PasswordException'', message = ''No password given''\<rparr>,
      loadingTaskRef = Some 7, documentRef = None, versionRef = 1,
      trace = [OnLoadStart, OnPasswordRequired,
               OnLoadError \<lparr>name = ''PasswordException'', message = ''No password given''\<rparr>]\<rparr>"
proof -
  let ?h = "load all_callbacks (JString ''/a.pdf'') (Inr (7::nat)) (initial_document :: (nat, nat, nat) pdf_document)"
  let ?e = "\<lparr>name = ''PasswordException'', message = ''No password given''\<rparr>"
  have h: "?h = \<lparr>state = StateLoading, document = None, info = None, error = None,
      loadingTaskRef = Some 7, documentRef = None, versionRef = 1, trace = [OnLoadStart]\<rparr>"
    by (simp add: load_def initial_document_def all_callbacks_def abortLoadingTask_def
        destroyDocumentRef_def call_if_def emit_def)
  have v: "1 = versionRef ?h" by (simp add: h)
  have n: "name ?e = ''PasswordException''" by simp
  have c: "has_onPasswordRequired all_callbacks" "has_onLoadError all_callbacks"
    by (simp_all add: all_callbacks_def)
  note t = password_required_in_addition [OF v n, of all_callbacks]
  show ?thesis unfolding t by (simp add: h c)
qed


lemma versionRef_settle: "versionRef (settle cb ev h) = versionRef h"
  by (cases ev) (simp_all add: on_fulfilled_def on_rejected_def call_if_def emit_def Let_def)

lemma versionRef_settle_all: "versionRef (settle_all cb evs h) = versionRef h"
  by (induction evs arbitrary: h) (simp_all add: versionRef_settle)

lemma settle_stale:
  assumes "captured ev \<noteq> versionRef h"
  shows "settle cb ev h = (case ev of Fulfilled _ doc _ \<Rightarrow> emit (DocumentDestroy doc) h | Rejected _ _ \<Rightarrow> h)"
  using assms by (cases ev) (simp_all add: on_fulfilled_def on_rejected_def)

lemma observed_eq_iff:
  "(observed h = observed h') =
     (state h = state h' \<and> document h = document h' \<and> info h = info h' \<and> error h = error h'
      \<and> loadingTaskRef h = loadingTaskRef h' \<and> documentRef h = documentRef h'
      \<and> versionRef h = versionRef h'
      \<and> filter is_callback (trace h) = filter is_callback (trace h'))"
  by (cases h, cases h') (auto simp: observed_def)


lemma observed_settle_stale:
  assumes "captured ev \<noteq> versionRef h"
  shows "observed (settle cb ev h) = observed h"
proof (cases ev)
  case (Fulfilled version doc docInfo)
  with assms have "settle cb ev h = emit (DocumentDestroy doc) h"
    by (simp add: on_fulfilled_def)
  then show ?thesis by (simp add: observed_def emit_def)
next
  case (Rejected version err)
  with assms have "settle cb ev h = h" by (simp add: on_rejected_def)
  then show ?thesis by simp
qed

lemma observed_settle_cong:
  assumes "observed h = observed h'"
  shows "observed (settle cb ev h) = observed (settle cb ev h')"
proof -
  from assms have eq: "state h = state h'" "document h = document h'" "info h = info h'"
      "error h = error h'" "loadingTaskRef h = loadingTaskRef h'" "documentRef h = documentRef h'"
      "versionRef h = versionRef h'"
      "filter is_callback (trace h) = filter is_callback (trace h')"
    by (simp_all add: observed_eq_iff)
  show ?thesis
  proof (cases ev)
    case (Fulfilled version doc docInfo)
    show ?thesis unfolding observed_eq_iff Fulfilled
      by (simp add: eq on_fulfilled_def call_if_def emit_def)
  next
    case (Rejected version err)
    show ?thesis unfolding observed_eq_iff Rejected
      by (simp add: eq on_rejected_def call_if_def emit_def Let_def)
  qed
qed

lemma observed_settle_all_cong:
  "observed h = observed h' \<Longrightarrow> observed (settle_all cb evs h) = observed (settle_all cb evs h')"
proof (induction evs arbitrary: h h')
  case Nil
  then show ?case by simp
next
  case (Cons ev evs)
  from Cons.prems have "observed (settle cb ev h) = observed (settle cb ev h')"
    by (rule observed_settle_cong)
  then have "observed (settle_all cb evs (settle cb ev h)) = observed (settle_all cb evs (settle cb ev h'))"
    by (rule Cons.IH)
  then show ?case by simp
qed

lemma observed_settle_all_filter:
  "observed (settle_all cb evs h)
     = observed (settle_all cb (filter (\<lambda>ev. captured ev = versionRef h) evs) h)"
proof (induction evs arbitrary: h)
  case Nil
  show ?case by simp
next
  case (Cons ev evs)
  let ?cur = "filter (\<lambda>ev. captured ev = versionRef h) evs"
  have IH: "observed (settle_all cb evs (settle cb ev h)) = observed (settle_all cb ?cur (settle cb ev h))"
    using Cons [of "settle cb ev h"] unfolding versionRef_settle .
  show ?case
  proof (cases "captured ev = versionRef h")
    case True
    have "filter (\<lambda>ev. captured ev = versionRef h) (ev # evs) = ev # ?cur"
      using True by simp
    then show ?thesis using IH by (simp only: settle_all.simps)
  next
    case False
    have st: "observed (settle cb ev h) = observed h"
      using False by (rule observed_settle_stale)
    have "observed (settle_all cb ?cur (settle cb ev h)) = observed (settle_all cb ?cur h)"
      using st by (rule observed_settle_all_cong)
    moreover have "filter (\<lambda>ev. captured ev = versionRef h) (ev # evs) = ?cur"
      using False by simp
    ultimately show ?thesis using IH by (simp only: settle_all.simps)
  qed
qed

lemma trace_settle_mono: "set (trace h) \<subseteq> set (trace (settle cb ev h))"
proof (cases ev)
  case (Fulfilled version doc docInfo)
  show ?thesis unfolding Fulfilled
    by (simp add: on_fulfilled_def call_if_def emit_def subset_insertI)
next
  case (Rejected version err)
  show ?thesis unfolding Rejected
    by (simp add: on_rejected_def call_if_def emit_def Let_def subset_insertI subset_insertI2)
qed

lemma trace_settle_all_mono: "set (trace h) \<subseteq> set (trace (settle_all cb evs h))"
proof (induction evs arbitrary: h)
  case Nil
  show ?case by simp
next
  case (Cons ev evs)
  have "set (trace h) \<subseteq> set (trace (settle cb ev h))" by (rule trace_settle_mono)
  also have "\<dots> \<subseteq> set (trace (settle_all cb evs (settle cb ev h)))" by (rule Cons)
  finally show ?case by simp
qed

lemma stale_fulfilled_destroyed:
  assumes "Fulfilled version doc docInfo \<in> set evs" and "version \<noteq> versionRef h"
  shows "DocumentDestroy doc \<in> set (trace (settle_all cb evs h))"
  using assms
proof (induction evs arbitrary: h)
  case Nil
  then show ?case by simp
next
  case (Cons ev evs)
  show ?case
  proof (cases "ev = Fulfilled version doc docInfo")
    case True
    have "DocumentDestroy doc \<in> set (trace (settle cb ev h))"
      using Cons.prems(2) by (simp add: True on_fulfilled_def emit_def)
    then show ?thesis using trace_settle_all_mono [of "settle cb ev h" cb evs] by auto
  next
    case False
    then have "Fulfilled version doc docInfo \<in> set evs" using Cons.prems(1) by simp
    moreover have "version \<noteq> versionRef (settle cb ev h)"
      using Cons.prems(2) by (simp add: versionRef_settle)
    ultimately have "DocumentDestroy doc \<in> set (trace (settle_all cb evs (settle cb ev h)))"
      by (rule Cons.IH)
    then show ?thesis by simp
  qed
qed

lemma settle_all_snoc: "settle_all cb (evs @ [ev]) h = settle cb ev (settle_all cb evs h)"
  by (induction evs arbitrary: h) simp_all

lemma ready_only_by_current:
  "state (settle_all cb evs h) = StateReady \<longrightarrow>
     (state h = StateReady \<and> document (settle_all cb evs h) = document h
        \<and> info (settle_all cb evs h) = info h \<and> documentRef (settle_all cb evs h) = documentRef h)
     \<or> (\<exists>doc docInfo. Fulfilled (versionRef h) doc docInfo \<in> set evs
           \<and> document (settle_all cb evs h) = Some doc
           \<and> info (settle_all cb evs h) = Some docInfo
           \<and> documentRef (settle_all cb evs h) = Some doc)"
proof (induction evs rule: rev_induct)
  case Nil
  show ?case by simp
next
  case (snoc ev evs)
  let ?s = "settle_all cb evs h"
  have v: "versionRef ?s = versionRef h" by (rule versionRef_settle_all)
  show ?case
  proof (cases ev)
    case (Fulfilled version doc docInfo)
    show ?thesis
    proof (cases "version = versionRef h")
      case True
      then show ?thesis unfolding settle_all_snoc Fulfilled
        by (auto simp: on_fulfilled_def call_if_def emit_def v)
    next
      case False
      then have "settle cb ev ?s = emit (DocumentDestroy doc) ?s"
        by (simp add: Fulfilled on_fulfilled_def v)
      then show ?thesis using snoc unfolding settle_all_snoc by (auto simp: emit_def)
    qed
  next
    case (Rejected version err)
    show ?thesis
    proof (cases "version = versionRef h")
      case True
      then have "state (settle cb ev ?s) = StateError"
        by (simp add: Rejected on_rejected_def call_if_def emit_def v Let_def)
      then show ?thesis unfolding settle_all_snoc by simp
    next
      case False
      then have "settle cb ev ?s = ?s" by (simp add: Rejected on_rejected_def v)
      then show ?thesis using snoc unfolding settle_all_snoc by auto
    qed
  qed
qed

lemma error_only_by_current:
  "state (settle_all cb evs h) = StateError \<longrightarrow>
     (state h = StateError \<and> error (settle_all cb evs h) = error h)
     \<or> (\<exists>err. Rejected (versionRef h) err \<in> set evs \<and> error (settle_all cb evs h) = Some err)"
proof (induction evs rule: rev_induct)
  case Nil
  show ?case by simp
next
  case (snoc ev evs)
  let ?s = "settle_all cb evs h"
  have v: "versionRef ?s = versionRef h" by (rule versionRef_settle_all)
  show ?case
  proof (cases ev)
    case (Fulfilled version doc docInfo)
    show ?thesis
    proof (cases "version = versionRef h")
      case True
      then have "state (settle cb ev ?s) = StateReady"
        by (simp add: Fulfilled on_fulfilled_def call_if_def emit_def v)
      then show ?thesis unfolding settle_all_snoc by simp
    next
      case False
      then have "settle cb ev ?s = emit (DocumentDestroy doc) ?s"
        by (simp add: Fulfilled on_fulfilled_def v)
      then show ?thesis using snoc unfolding settle_all_snoc by (auto simp: emit_def)
    qed
  next
    case (Rejected version err)
    show ?thesis
    proof (cases "version = versionRef h")
      case True
      then show ?thesis unfolding settle_all_snoc Rejected
        by (auto simp: on_rejected_def call_if_def emit_def v Let_def)
    next
      case False
      then have "settle cb ev ?s = ?s" by (simp add: Rejected on_rejected_def v)
      then show ?thesis using snoc unfolding settle_all_snoc by auto
    qed
  qed
qed

lemma load_started:
  assumes "\<not> falsy src"
  shows "versionRef (load cb src outcome h) = versionRef h + 1"
    and "state (load cb src outcome h) = (case outcome of Inl err \<Rightarrow> StateError | Inr task \<Rightarrow> StateLoading)"
    and "error (load cb src outcome h) = (case outcome of Inl err \<Rightarrow> Some err | Inr task \<Rightarrow> None)"
    and "loadingTaskRef (load cb src outcome h) = (case outcome of Inl err \<Rightarrow> None | Inr task \<Rightarrow> Some task)"
    and "documentRef (load cb src outcome h) = None"
  using assms
  by (simp_all add: load_def Let_def abortLoadingTask_def destroyDocumentRef_def call_if_def emit_def
      split: sum.splits option.splits)

lemma load_aborts_previous:
  assumes "\<not> falsy src" and "loadingTaskRef h = Some task"
  shows "TaskDestroy task \<in> set (trace (load cb src outcome h))"
  using assms
  by (simp add: load_def Let_def abortLoadingTask_def destroyDocumentRef_def call_if_def emit_def
      split: sum.splits option.splits)

text \<open>
  C1. When the source is cleared while a load is pending, the pending load is not
  superseded: \<open>load\<close> resets the cells to \<open>idle\<close> and returns through its \<open>!src\<close> test before
  the version is incremented, so the continuations of the first load still find their
  version current. If that load is then fulfilled, its document is published (state
  \<open>ready\<close>) and not destroyed; if it is rejected, as by the abort that the cleanup of the
  effect has requested, the state becomes \<open>error\<close> and the error callback is called.
\<close>

theorem cleared_source_not_superseded:
  "state source_cleared = StateIdle
   \<and> versionRef source_cleared = versionRef first_load
   \<and> TaskDestroy 7 \<in> set (trace source_cleared)
   \<and> state (on_fulfilled all_callbacks 1 10 100 source_cleared) = StateReady
   \<and> document (on_fulfilled all_callbacks 1 10 100 source_cleared) = Some 10
   \<and> info (on_fulfilled all_callbacks 1 10 100 source_cleared) = Some 100
   \<and> DocumentDestroy 10 \<notin> set (trace (on_fulfilled all_callbacks 1 10 100 source_cleared))
   \<and> state (on_rejected all_callbacks 1 abort_error source_cleared) = StateError
   \<and> error (on_rejected all_callbacks 1 abort_error source_cleared) = Some abort_error
   \<and> OnLoadError abort_error \<in> set (trace (on_rejected all_callbacks 1 abort_error source_cleared))"
  by (simp add: source_cleared_def sourceChanged_def first_load_def load_def cleanup_def
      initial_document_def Let_def
      all_callbacks_def abortLoadingTask_def destroyDocumentRef_def call_if_def emit_def
      on_fulfilled_def on_rejected_def abort_error_def)

text \<open>
  The path that the cleared source misses: when both loads have a source, the second
  supersedes the first. The current version is the second load's, the first task was
  asked to abort, and the state cells, refs and callbacks are exactly what the
  settlements of the current version alone produce; every document a stale settlement
  delivers is destroyed; the state is \<open>ready\<close> only with the document and info of a
  fulfilment of the second load, and \<open>error\<close> only with the error the second \<open>loadDocument\<close>
  call threw or a rejection of the second load carried.
\<close>

theorem superseded_load_discarded:
  assumes "\<not> falsy first_src" and "\<not> falsy second_src"
    and "mid = load cb second_src second_outcome (load cb first_src (Inr first_task) start)"
    and "final = settle_all cb evs mid"
  shows "versionRef mid = versionRef start + 2
     \<and> versionRef final = versionRef mid
     \<and> TaskDestroy first_task \<in> set (trace mid)
     \<and> observed final = observed (settle_all cb (filter (\<lambda>ev. captured ev = versionRef mid) evs) mid)
     \<and> (\<forall>version doc docInfo.
           Fulfilled version doc docInfo \<in> set evs \<and> version \<noteq> versionRef mid
           \<longrightarrow> DocumentDestroy doc \<in> set (trace final))
     \<and> (state final = StateReady \<longrightarrow>
           (\<exists>doc docInfo. Fulfilled (versionRef mid) doc docInfo \<in> set evs
              \<and> document final = Some doc \<and> info final = Some docInfo \<and> documentRef final = Some doc))
     \<and> (state final = StateError \<longrightarrow>
           (\<exists>err. error final = Some err
              \<and> (second_outcome = Inl err \<or> Rejected (versionRef mid) err \<in> set evs)))"
proof -
  let ?h1 = "load cb first_src (Inr first_task) start"
  have v1: "versionRef ?h1 = versionRef start + 1" and t1: "loadingTaskRef ?h1 = Some first_task"
    using assms(1) by (simp_all add: load_started)
  have c1: "versionRef mid = versionRef start + 2"
    unfolding assms(3) using assms(2) v1 by (simp add: load_started)
  have c2: "versionRef final = versionRef mid"
    unfolding assms(4) by (rule versionRef_settle_all)
  have c3: "TaskDestroy first_task \<in> set (trace mid)"
    unfolding assms(3) using assms(2) t1 by (rule load_aborts_previous)
  have c4: "observed final = observed (settle_all cb (filter (\<lambda>ev. captured ev = versionRef mid) evs) mid)"
    unfolding assms(4) by (rule observed_settle_all_filter)
  have c5: "\<forall>version doc docInfo.
           Fulfilled version doc docInfo \<in> set evs \<and> version \<noteq> versionRef mid
           \<longrightarrow> DocumentDestroy doc \<in> set (trace final)"
  proof (intro allI impI)
    fix version doc docInfo
    assume st: "Fulfilled version doc docInfo \<in> set evs \<and> version \<noteq> versionRef mid"
    show "DocumentDestroy doc \<in> set (trace final)"
      unfolding assms(4) using st [THEN conjunct1] st [THEN conjunct2]
      by (rule stale_fulfilled_destroyed)
  qed
  have s2: "state mid = (case second_outcome of Inl err \<Rightarrow> StateError | Inr task \<Rightarrow> StateLoading)"
    and e2: "error mid = (case second_outcome of Inl err \<Rightarrow> Some err | Inr task \<Rightarrow> None)"
    unfolding assms(3) using assms(2) by (simp_all add: load_started)
  have nr: "state mid \<noteq> StateReady" using s2 by (simp split: sum.splits)
  have c6: "state final = StateReady \<longrightarrow>
           (\<exists>doc docInfo. Fulfilled (versionRef mid) doc docInfo \<in> set evs
              \<and> document final = Some doc \<and> info final = Some docInfo \<and> documentRef final = Some doc)"
    unfolding assms(4) using ready_only_by_current [of cb evs mid] nr by blast
  have c7: "state final = StateError \<longrightarrow>
           (\<exists>err. error final = Some err
              \<and> (second_outcome = Inl err \<or> Rejected (versionRef mid) err \<in> set evs))"
  proof
    assume "state final = StateError"
    then consider (a) "state mid = StateError" "error final = error mid"
      | (b) err where "Rejected (versionRef mid) err \<in> set evs" "error final = Some err"
      using error_only_by_current [of cb evs mid] unfolding assms(4) by blast
    then show "\<exists>err. error final = Some err
              \<and> (second_outcome = Inl err \<or> Rejected (versionRef mid) err \<in> set evs)"
    proof cases
      case a
      then show ?thesis using s2 e2 by (cases second_outcome) simp_all
    next
      case b
      then show ?thesis by blast
    qed
  qed
  show ?thesis using c1 c2 c3 c4 c5 c6 c7 by blast
qed

theorem superseded_load_discarded_witness:
  "\<not> falsy (JString ''/a.pdf'') \<and> \<not> falsy (JString ''/b.pdf'')
   \<and> state (settle_all all_callbacks [Fulfilled 1 (10::nat) (100::nat), Fulfilled 2 20 200]
        (load all_callbacks (JString ''/b.pdf'') (Inr (8::nat))
          (load all_callbacks (JString ''/a.pdf'') (Inr 7) initial_document))) = StateReady
   \<and> document (settle_all all_callbacks [Fulfilled 1 (10::nat) (100::nat), Fulfilled 2 20 200]
        (load all_callbacks (JString ''/b.pdf'') (Inr (8::nat))
          (load all_callbacks (JString ''/a.pdf'') (Inr 7) initial_document))) = Some 20
   \<and> DocumentDestroy 10 \<in> set (trace (settle_all all_callbacks [Fulfilled 1 (10::nat) (100::nat), Fulfilled 2 20 200]
        (load all_callbacks (JString ''/b.pdf'') (Inr (8::nat))
          (load all_callbacks (JString ''/a.pdf'') (Inr 7) initial_document))))"
proof -
  let ?h2 = "load all_callbacks (JString ''/b.pdf'') (Inr (8::nat))
          (load all_callbacks (JString ''/a.pdf'') (Inr 7) (initial_document :: (nat, nat, nat) pdf_document))"
  let ?evs = "[Fulfilled 1 (10::nat) (100::nat), Fulfilled 2 20 200]"
  let ?hf = "settle_all all_callbacks ?evs ?h2"
  have a: "\<not> falsy (JString ''/a.pdf'')" and b: "\<not> falsy (JString ''/b.pdf'')" by simp_all
  note t = superseded_load_discarded [where cb = all_callbacks
      and second_outcome = "Inr (8::nat)" and first_task = "7::nat"
      and start = "initial_document :: (nat, nat, nat) pdf_document" and evs = ?evs,
      OF a b refl refl]
  have v: "versionRef ?h2 = 2" using t [THEN conjunct1] by (simp add: initial_document_def)
  have ready: "state ?hf = StateReady"
    by (simp add: v on_fulfilled_def call_if_def emit_def)
  have "\<exists>doc docInfo. Fulfilled (versionRef ?h2) doc docInfo \<in> set ?evs
              \<and> document ?hf = Some doc \<and> info ?hf = Some docInfo \<and> documentRef ?hf = Some doc"
    using t ready by blast
  then have doc: "document ?hf = Some 20" unfolding v by auto
  have "Fulfilled 1 10 100 \<in> set ?evs \<and> 1 \<noteq> versionRef ?h2" by (simp add: v)
  then have des: "DocumentDestroy 10 \<in> set (trace ?hf)" using t by blast
  show ?thesis using a b ready doc des by blast
qed

section \<open>Visible range\<close>

lemma scanRange_start:
  assumes "0 \<le> startIndex"
  shows "0 \<le> fst (scanRange c n index es (startIndex, endIndex))
       \<and> fst (scanRange c n index es (startIndex, endIndex))
           \<le> max startIndex (index + int (length es) - 3)"
  using assms
proof (induction es arbitrary: index startIndex endIndex)
  case Nil
  then show ?case by simp
next
  case (Cons e es)
  let ?s = "if rect_bottom e - box_top c < - clientHeight c then max 0 (index - 2) else startIndex"
  let ?t = "if rect_top e - box_top c > clientHeight c * 2 then min (n - 1) (index + 2) else endIndex"
  have s0: "0 \<le> ?s" using Cons.prems by simp
  have bound: "?s \<le> max startIndex (index + int (length (e # es)) - 3)"
    using Cons.prems by (auto simp: max_def)
  have unfold: "scanRange c n index (e # es) (startIndex, endIndex) = scanRange c n (index + 1) es (?s, ?t)"
    by (simp add: Let_def)
  from Cons.IH [OF s0, of "index + 1" ?t]
  have ih: "0 \<le> fst (scanRange c n (index + 1) es (?s, ?t))"
    "fst (scanRange c n (index + 1) es (?s, ?t)) \<le> max ?s (index + 1 + int (length es) - 3)"
    by blast+
  have "max ?s (index + 1 + int (length es) - 3) \<le> max startIndex (index + int (length (e # es)) - 3)"
    using bound by (auto simp: max_def)
  with ih show ?case unfolding unfold by linarith
qed

lemma scanRange_end:
  assumes "sorted (map rect_top es)" and "es \<noteq> []"
  shows "snd (scanRange c n index es (startIndex, endIndex))
       = (if rect_top (last es) - box_top c > clientHeight c * 2
          then min (n - 1) (index + int (length es) - 1 + 2) else endIndex)"
  using assms
proof (induction es arbitrary: index startIndex endIndex)
  case Nil
  then show ?case by simp
next
  case (Cons e es)
  let ?s = "if rect_bottom e - box_top c < - clientHeight c then max 0 (index - 2) else startIndex"
  let ?t = "if rect_top e - box_top c > clientHeight c * 2 then min (n - 1) (index + 2) else endIndex"
  have unfold: "scanRange c n index (e # es) (startIndex, endIndex) = scanRange c n (index + 1) es (?s, ?t)"
    by (simp add: Let_def)
  show ?case
  proof (cases "es = []")
    case True
    then show ?thesis by (simp add: Let_def)
  next
    case False
    have srt: "sorted (map rect_top es)" using Cons.prems(1) by simp
    have le: "rect_top e \<le> rect_top (last es)"
      using Cons.prems(1) False by simp
    have ih: "snd (scanRange c n (index + 1) es (?s, ?t))
       = (if rect_top (last es) - box_top c > clientHeight c * 2
          then min (n - 1) (index + 1 + int (length es) - 1 + 2) else ?t)"
      by (rule Cons.IH [OF srt False])
    show ?thesis unfolding unfold ih using False le by simp
  qed
qed

lemma updateVisibleRange_invariant:
  assumes "pages s \<noteq> []" and "stacked (length (pages s)) pageElements"
  shows "range_invariant (int (length (pages s))) (visibleRange (updateVisibleRange c pageElements s))"
proof -
  let ?n = "int (length (pages s))"
  let ?found = "scanRange c ?n 0 pageElements (0, ?n - 1)"
  have n1: "1 \<le> ?n" using assms(1) by (cases "pages s") simp_all
  have len: "int (length pageElements) = ?n" and srt: "sorted (map rect_top pageElements)"
    using assms(2) by (simp_all add: stacked_def)
  have ne: "pageElements \<noteq> []" using len n1 by auto
  have st: "0 \<le> fst ?found" "fst ?found \<le> max 0 (?n - 3)"
    using scanRange_start [of 0 c ?n 0 pageElements "?n - 1"] len by simp_all
  have en: "snd ?found = ?n - 1"
    using scanRange_end [OF srt ne, of c ?n 0 0 "?n - 1"] len by simp
  have r: "visibleRange (updateVisibleRange c pageElements s)
      = \<lparr>range_start = max 0 (fst ?found - 2), range_end = min (?n - 1) (snd ?found + 2)\<rparr>"
    by (simp add: updateVisibleRange_def Let_def)
  show ?thesis unfolding r range_invariant_def en using st n1 by auto
qed

lemma visibleRange_updateVisibleRange:
  "visibleRange (updateVisibleRange c pageElements s) =
     \<lparr>range_start =
        max 0 (fst (scanRange c (int (length (pages s))) 0 pageElements
                 (0, int (length (pages s)) - 1)) - 2),
      range_end =
        min (int (length (pages s)) - 1)
          (snd (scanRange c (int (length (pages s))) 0 pageElements
                 (0, int (length (pages s)) - 1)) + 2)\<rparr>"
  by (simp add: updateVisibleRange_def Let_def)

lemma pages_updateVisibleRange: "pages (updateVisibleRange c pageElements s) = pages s"
  by (simp add: updateVisibleRange_def Let_def)

lemma pages_onScrolls: "pages (onScrolls ms s) = pages s"
  by (induction ms arbitrary: s) (auto simp: pages_updateVisibleRange)

lemma onScrolls_snoc:
  "onScrolls (ms @ [(c, pageElements)]) s = updateVisibleRange c pageElements (onScrolls ms s)"
  by (induction ms arbitrary: s) auto

text \<open>
  C3 as stated fails before the first recomputation: the range starts as \<open>{start: 0, end: 5}\<close>
  whatever the document, so for three loaded pages its end is beyond the last index.
\<close>

theorem initial_range_counterexample:
  "visibleRange (setPages [1, 2, 3 :: nat] initial_pages) = \<lparr>range_start = 0, range_end = 5\<rparr>
   \<and> \<not> range_invariant (int (length (pages (setPages [1, 2, 3 :: nat] initial_pages))))
         (visibleRange (setPages [1, 2, 3 :: nat] initial_pages))"
  by (simp add: setPages_def initial_pages_def range_invariant_def)

text \<open>
  C3, amended. After every recomputation of the range, that is after the tracking effect
  has run on a non-empty list of pages and after any further scroll events, the range
  satisfies \<open>0 \<le> start \<le> end \<le> pageCount - 1\<close>, and \<open>end - start \<ge> 4\<close> when \<open>pageCount \<ge> 5\<close>,
  provided each measurement finds one page element per loaded page with tops in document
  order. Before the first recomputation the range is the constant \<open>{0, 5}\<close>.
\<close>

theorem visible_range_after_recomputation:
  assumes "pages s \<noteq> []"
    and "stacked (length (pages s)) pageElements"
    and "\<forall>m \<in> set scrolls. stacked (length (pages s)) (snd m)"
    and "s' = onScrolls scrolls (trackVisiblePages (Some (c, pageElements)) s)"
  shows "pages s' = pages s \<and> range_invariant (int (length (pages s))) (visibleRange s')"
proof -
  let ?s1 = "trackVisiblePages (Some (c, pageElements)) s"
  have s1: "?s1 = updateVisibleRange c pageElements s"
    using assms(1) by (simp add: trackVisiblePages_def)
  have p1: "pages ?s1 = pages s" by (simp add: s1 pages_updateVisibleRange)
  have pages: "pages s' = pages s" unfolding assms(4) by (simp add: pages_onScrolls p1)
  have inv: "range_invariant (int (length (pages s))) (visibleRange s')"
  proof (cases scrolls rule: rev_cases)
    case Nil
    then show ?thesis unfolding assms(4) s1
      using updateVisibleRange_invariant [OF assms(1) assms(2)] by simp
  next
    case (snoc ms m)
    obtain c' es' where m: "m = (c', es')" by (cases m)
    let ?prev = "onScrolls ms ?s1"
    have pp: "pages ?prev = pages s" by (simp add: pages_onScrolls p1)
    have ne: "pages ?prev \<noteq> []" using assms(1) pp by simp
    have stk: "stacked (length (pages ?prev)) es'"
      using assms(3) snoc m pp by simp
    have "s' = updateVisibleRange c' es' ?prev"
      unfolding assms(4) snoc m by (rule onScrolls_snoc)
    then show ?thesis using updateVisibleRange_invariant [OF ne stk, of c'] pp by simp
  qed
  show ?thesis using pages inv by blast
qed

theorem visible_range_after_recomputation_witness:
  "visibleRange (onScrolls [(long_container, long_elements)]
      (trackVisiblePages (Some (long_container_at_top, long_elements_at_top))
        (setPages [1, 2, 3, 4, 5, 6, 7, 8 :: nat] initial_pages)))
     = \<lparr>range_start = 1, range_end = 7\<rparr>
   \<and> range_invariant 8 (visibleRange (onScrolls [(long_container, long_elements)]
      (trackVisiblePages (Some (long_container_at_top, long_elements_at_top))
        (setPages [1, 2, 3, 4, 5, 6, 7, 8 :: nat] initial_pages))))"
proof -
  let ?s = "setPages [1, 2, 3, 4, 5, 6, 7, 8 :: nat] initial_pages"
  let ?c = "long_container_at_top"
  have a: "pages ?s \<noteq> []" by (simp add: setPages_def)
  have l: "length (pages ?s) = 8" by (simp add: setPages_def)
  have b: "stacked (length (pages ?s)) long_elements_at_top"
    unfolding l by (simp add: stacked_def long_elements_at_top_def long_elements_def)
  have b': "stacked (length (pages ?s)) long_elements"
    unfolding l by (simp add: stacked_def long_elements_def)
  have c: "\<forall>m \<in> set [(long_container, long_elements)]. stacked (length (pages ?s)) (snd m)"
    using b' by simp
  note t = visible_range_after_recomputation [where c = ?c, OF a b c refl]
  have inv: "range_invariant 8 (visibleRange (onScrolls [(long_container, long_elements)]
      (trackVisiblePages (Some (?c, long_elements_at_top)) ?s)))"
    using t [THEN conjunct2] unfolding l by simp
  have tr: "trackVisiblePages (Some (?c, long_elements_at_top)) ?s
      = updateVisibleRange ?c long_elements_at_top ?s"
    using a by (simp add: trackVisiblePages_def)
  have len: "length (pages (updateVisibleRange ?c long_elements_at_top ?s)) = 8"
    by (simp only: pages_updateVisibleRange l)
  have val: "visibleRange (onScrolls [(long_container, long_elements)]
      (trackVisiblePages (Some (?c, long_elements_at_top)) ?s))
     = \<lparr>range_start = 1, range_end = 7\<rparr>"
    unfolding tr onScrolls.simps visibleRange_updateVisibleRange len
    by (simp add: long_elements_def long_container_def rect_bottom_def)
  show ?thesis using inv val by blast
qed

section \<open>Page tracking\<close>

text \<open>The roundings that occur for the measurement, each computed from the definition.\<close>

lemma double_round_measured:
  "double_round (396 / 5) = 5573204538870989 / 70368744177664"
  "double_round (792 / 5) = 5573204538870989 / 35184372088832"
  "double_round (5573204538870989 / 70368744177664) = 5573204538870989 / 70368744177664"
  "double_round (5573204538870989 / 35184372088832) = 5573204538870989 / 35184372088832"
  "double_round 150 = 150" "double_round 300 = 300" "double_round 1 = 1" "double_round 0 = 0"
  by code_simp+

lemma double_round_page_three:
  "double_round (16719613616612967 / 70368744177664) = 2089951702076621 / 8796093022208"
  "double_round (2786602269435495 / 35184372088832) = 2786602269435495 / 35184372088832"
  "double_round (5573204538870990 / 5573204538870989) = 4503599627370497 / 4503599627370496"
  by code_simp+

lemmas tracked_defs = tracked_container_def page_one_def page_two_def page_three_def
  elementTop_def elementBottom_def containerCenter_def visibleHeight_def visibility_def
  containsCenter_def fadd_def fsub_def fdiv_def Let_def

lemma tracked_page_one:
  "rect_height page_one \<noteq> 0" "visibility tracked_container page_one = 1"
  "\<not> containsCenter tracked_container page_one" "pageNumber page_one = 1"
  by (simp_all add: tracked_defs double_round_measured)

lemma tracked_page_two:
  "rect_height page_two \<noteq> 0" "visibility tracked_container page_two = 1"
  "containsCenter tracked_container page_two" "pageNumber page_two = 2"
  by (simp_all add: tracked_defs double_round_measured)

lemma tracked_page_three:
  "rect_height page_three \<noteq> 0" "visibility tracked_container page_three = 1 + 1 / 2 ^ 52"
  "\<not> containsCenter tracked_container page_three" "pageNumber page_three = 3"
  by (simp_all add: tracked_defs double_round_measured double_round_page_three)

text \<open>
  C5. The page whose span contains the centre of the visible band is given ratio 1 as
  the highest priority, but a later page that is wholly visible can have a computed ratio
  above 1: for page 3 of the measurement, \<open>((158.4 + 79.2) - 158.4) / 79.2\<close> is
  \<open>1 + 2^-52\<close> in doubles. So the scan selects page 3, not page 2, which alone contains the
  centre, and \<open>onPageChange(3)\<close> is called.
\<close>

theorem center_page_overtaken_by_rounding:
  "map pageNumber (filter (containsCenter tracked_container) tracked_elements) = [2]
   \<and> visibility tracked_container page_two = 1
   \<and> visibility tracked_container page_three = 1 + 1 / 2 ^ 52
   \<and> scanPages tracked_container tracked_elements (1, 0) = (3, 1 + 1 / 2 ^ 52)
   \<and> calculateVisiblePage None 3 (Some (tracked_container, tracked_elements)) initial_tracking
       = \<lparr>lastPageRef = 3, reported = [3]\<rparr>"
  by (simp add: tracked_elements_def tracked_page_one tracked_page_two tracked_page_three
      calculateVisiblePage_def threshold_or_default_def initial_tracking_def)

end
